theory Spec2Isabelle
  imports Complex_Main "HOL-Library.Multiset" "HOL-Library.Sublist"
begin

section \<open>Data model (src/lib.ts)\<close>

text \<open>
  A TypeScript \<open>number\<close> is read as an exact real number: byte counts, ids and
  timestamps are integers far below \<open>2^53\<close>, where doubles are exact, and the limit
  \<open>maxSizeGB * 1024 ** 3\<close> may be fractional. Rounding, \<open>NaN\<close> and infinities
  are not modelled. Array lengths are natural numbers.
\<close>

type_synonym number = real

text \<open>
  \<open>Artifact\<close> is the element type of octokit's \<open>listArtifactsForRepo\<close> response;
  the fields the program reads are kept. \<open>created_at\<close> is \<open>string | null\<close> in the
  source and only ever passes through \<open>new Date(_).getTime()\<close>: the field holds
  that millisecond timestamp of the ISO date string, and \<open>None\<close> is \<open>null\<close>.
  The field \<open>id\<close> is named \<open>artifact_id\<close>, as in the delete request.
\<close>

record Artifact =
  artifact_id :: number
  name :: string
  size_in_bytes :: number
  created_at :: "number option"

record Config =
  owner :: string
  repo :: string
  maxSizeGB :: number
  token :: string
  dryRun :: bool

record ArtifactStats =
  totalCount :: nat
  totalSizeBytes :: number
  totalSizeGB :: number

record DeletionResult =
  artifact :: Artifact
  success :: bool
  error :: "string option"

record CleanupSummary =
  initial :: ArtifactStats
  deletedCount :: nat
  freedBytes :: number
  freedGB :: number
  finalSizeBytes :: number
  finalSizeGB :: number
  failures :: "DeletionResult list"
  retained :: "Artifact list"

text \<open>\<open>Result<T, Error>\<close> is the sum \<open>Error + T\<close>: \<open>Inl\<close> is \<open>ok: false\<close>.\<close>

datatype Error = Error string

section \<open>Stats engine\<close>

definition bytesToGB :: "number \<Rightarrow> number" where
  "bytesToGB bytes = bytes / 1024 ^ 3"

definition calculateTotalSize :: "Artifact list \<Rightarrow> number" where
  "calculateTotalSize artifacts =
     foldl (\<lambda>sum a. sum + size_in_bytes a) 0 artifacts"

definition calculateStats :: "Artifact list \<Rightarrow> ArtifactStats" where
  "calculateStats artifacts =
     (let totalSizeBytes = calculateTotalSize artifacts
      in \<lparr>totalCount = length artifacts,
          totalSizeBytes = totalSizeBytes,
          totalSizeGB = bytesToGB totalSizeBytes\<rparr>)"

definition isOverLimit :: "number \<Rightarrow> number \<Rightarrow> bool" where
  "isOverLimit sizeBytes maxSizeBytes = (sizeBytes > maxSizeBytes)"

section \<open>Eviction selector\<close>

text \<open>\<open>new Date(a.created_at ?? 0).getTime()\<close>: a null date is the epoch.\<close>

definition createdTime :: "Artifact \<Rightarrow> number" where
  "createdTime a = (case created_at a of None \<Rightarrow> 0 | Some t \<Rightarrow> t)"

text \<open>
  \<open>[...artifacts].sort((a, b) => aTime - bTime)\<close>. \<open>Array.prototype.sort\<close> is a
  stable sort (ECMAScript 2019); with the consistent comparator \<open>aTime - bTime\<close> it
  orders by ascending key and keeps the order of equal keys, which is what the stable
  insertion sort \<open>sort_key\<close> computes.
\<close>

definition sortByCreatedDate :: "Artifact list \<Rightarrow> Artifact list" where
  "sortByCreatedDate artifacts = sort_key createdTime artifacts"





text \<open>
  The \<open>for ... of\<close> loop of \<open>selectArtifactsToDelete\<close>, with its two variables
  \<open>remainingSize\<close> and \<open>toDelete\<close>; \<open>break\<close> returns what was collected.
\<close>

fun selectLoop :: "Artifact list \<Rightarrow> number \<Rightarrow> number \<Rightarrow> Artifact list \<Rightarrow> Artifact list" where
  "selectLoop [] remainingSize maxSize toDelete = toDelete"
| "selectLoop (a # rest) remainingSize maxSize toDelete =
     (if remainingSize \<le> maxSize then toDelete
      else selectLoop rest (remainingSize - size_in_bytes a) maxSize (toDelete @ [a]))"

definition selectArtifactsToDelete :: "Artifact list \<Rightarrow> number \<Rightarrow> number \<Rightarrow> Artifact list" where
  "selectArtifactsToDelete artifacts currentSize maxSize =
     (if currentSize \<le> maxSize then []
      else selectLoop (sortByCreatedDate artifacts) currentSize maxSize [])"

section \<open>Cleanup accountant\<close>

definition createCleanupSummary ::
    "ArtifactStats \<Rightarrow> DeletionResult list \<Rightarrow> Artifact list \<Rightarrow> CleanupSummary" where
  "createCleanupSummary initialStats results retainedArtifacts =
     (let successful = filter (\<lambda>r. success r) results;
          failures = filter (\<lambda>r. \<not> success r) results;
          freedBytes = foldl (\<lambda>sum result. sum + size_in_bytes (artifact result)) 0 successful
      in \<lparr>initial = initialStats,
          deletedCount = length successful,
          freedBytes = freedBytes,
          freedGB = bytesToGB freedBytes,
          finalSizeBytes = totalSizeBytes initialStats - freedBytes,
          finalSizeGB = bytesToGB (totalSizeBytes initialStats - freedBytes),
          failures = failures,
          retained = retainedArtifacts\<rparr>)"

section \<open>Orchestration (src/index.ts)\<close>

text \<open>
  The remote delete endpoint is a parameter: \<open>api i n\<close> is what the \<open>try\<close> block of
  the \<open>i\<close>-th \<open>deleteArtifact\<close> call of a batch does for artifact id \<open>n\<close>;
  \<open>None\<close> when it runs to its end, \<open>Some msg\<close> when it throws, \<open>msg\<close> being
  \<open>error.message\<close> (or \<open>String(error)\<close>). Any outcome of any call is some
  \<open>api\<close>. What the program does beyond its return value is kept in \<open>Effects\<close>:
  the artifact ids for which the remote deletion was requested, in order, and the
  results handed to \<open>logDeletionResults\<close>.
\<close>

type_synonym deleteApi = "nat \<Rightarrow> number \<Rightarrow> string option"

record Effects =
  deleteRequests :: "number list"
  deletionLog :: "DeletionResult list"

definition deleteArtifact ::
    "Config \<Rightarrow> (number \<Rightarrow> string option) \<Rightarrow> Artifact \<Rightarrow> DeletionResult \<times> number list" where
  "deleteArtifact config request a =
     (if dryRun config then (\<lparr>artifact = a, success = True, error = None\<rparr>, [])
      else (case request (artifact_id a) of
              None \<Rightarrow> (\<lparr>artifact = a, success = True, error = None\<rparr>, [artifact_id a])
            | Some errorMessage \<Rightarrow>
                (\<lparr>artifact = a, success = False, error = Some errorMessage\<rparr>,
                 [artifact_id a])))"

text \<open>
  \<open>Promise.all(artifacts.map(...))\<close>: one call per artifact, each started in list
  order, the results collected in list order.
\<close>

definition deleteArtifacts ::
    "Config \<Rightarrow> deleteApi \<Rightarrow> Artifact list \<Rightarrow> DeletionResult list \<times> number list" where
  "deleteArtifacts config api artifacts =
     (let calls = map (\<lambda>(i, a). deleteArtifact config (api i) a) (enumerate 0 artifacts)
      in (map fst calls, concat (map snd calls)))"

definition performCleanup ::
    "Config \<Rightarrow> deleteApi \<Rightarrow> Artifact list \<Rightarrow> (Error + CleanupSummary) \<times> Effects" where
  "performCleanup config api artifacts =
     (let initialStats = calculateStats artifacts;
          maxSizeBytes = maxSizeGB config * 1024 ^ 3
      in if \<not> isOverLimit (totalSizeBytes initialStats) maxSizeBytes then
           (Inr \<lparr>initial = initialStats,
                 deletedCount = 0,
                 freedBytes = 0,
                 freedGB = 0,
                 finalSizeBytes = totalSizeBytes initialStats,
                 finalSizeGB = totalSizeGB initialStats,
                 failures = [],
                 retained = artifacts\<rparr>,
            \<lparr>deleteRequests = [], deletionLog = []\<rparr>)
         else
           (let toDelete = selectArtifactsToDelete artifacts
                             (totalSizeBytes initialStats) maxSizeBytes
            in if length toDelete = 0 then
                 (Inl (Error ''No artifacts to delete, but still over limit. This should not happen.''),
                  \<lparr>deleteRequests = [], deletionLog = []\<rparr>)
               else
                 (let (results, requests) = deleteArtifacts config api toDelete;
                      toDeleteIds = set (map artifact_id toDelete);
                      retained = filter (\<lambda>a. artifact_id a \<notin> toDeleteIds) artifacts;
                      summary = createCleanupSummary initialStats results retained
                  in (Inr summary,
                      \<lparr>deleteRequests = requests, deletionLog = results\<rparr>))))"

section \<open>Specification-level predicates\<close>

text \<open>
  The spec's words for the result of the selector, "the shortest oldest-first prefix
  sufficient to bring usage at or below the limit": \<open>P\<close> is a prefix of the sorted
  list \<open>S\<close>, removing it from the usage \<open>s\<close> reaches the limit \<open>L\<close>, and no
  shorter prefix of \<open>S\<close> does.
\<close>

definition shortest_sufficient_prefix :: "Artifact list \<Rightarrow> number \<Rightarrow> number \<Rightarrow> Artifact list \<Rightarrow> bool" where
  "shortest_sufficient_prefix S s L P \<longleftrightarrow>
     prefix P S \<and> s - calculateTotalSize P \<le> L \<and>
     (\<forall>k < length P. \<not> (s - calculateTotalSize (take k S) \<le> L))"

text \<open>
  The spec's invariant of a run: the retained ids and the ids of the successful outcomes
  together are the original ids, and no id is in both.
\<close>

definition retained_deleted_partition ::
    "Artifact list \<Rightarrow> CleanupSummary \<Rightarrow> DeletionResult list \<Rightarrow> bool" where
  "retained_deleted_partition original summary outcomes \<longleftrightarrow>
     artifact_id ` set (retained summary) \<union>
       artifact_id ` artifact ` set (filter success outcomes) = artifact_id ` set original \<and>
     artifact_id ` set (retained summary) \<inter>
       artifact_id ` artifact ` set (filter success outcomes) = {}"

text \<open>
  "Sorts as if created at the epoch": the artifact with a null date replaced by the date
  of time zero.
\<close>

definition null_as_epoch :: "Artifact \<Rightarrow> Artifact" where
  "null_as_epoch a = (if created_at a = None then a\<lparr>created_at := Some 0\<rparr> else a)"

section \<open>Helper lemmas\<close>

lemma foldl_add_sum_list:
  "foldl (\<lambda>s x. s + f x) (z::real) xs = z + sum_list (map f xs)"
  by (induction xs arbitrary: z) simp_all

lemma calculateTotalSize_sum_list:
  "calculateTotalSize artifacts = sum_list (map size_in_bytes artifacts)"
  by (simp add: calculateTotalSize_def foldl_add_sum_list)

lemma selectLoop_acc: "selectLoop xs r m acc = acc @ selectLoop xs r m []"
proof (induction xs arbitrary: r acc)
  case Nil
  show ?case by simp
next
  case (Cons a rest)
  show ?case
    using Cons.IH [of "r - size_in_bytes a" "acc @ [a]"] Cons.IH [of "r - size_in_bytes a" "[a]"]
    by simp
qed

lemma selectLoop_take:
  "\<exists>k \<le> length xs. selectLoop xs r m [] = take k xs \<and>
     (\<forall>j < k. \<not> (r - calculateTotalSize (take j xs) \<le> m)) \<and>
     (k = length xs \<or> r - calculateTotalSize (take k xs) \<le> m)"
proof (induction xs arbitrary: r)
  case Nil
  show ?case by (simp add: calculateTotalSize_sum_list)
next
  case (Cons a rest)
  show ?case
  proof (cases "r \<le> m")
    case True
    then have "selectLoop (a # rest) r m [] = take 0 (a # rest) \<and>
        (\<forall>j < 0. \<not> (r - calculateTotalSize (take j (a # rest)) \<le> m)) \<and>
        (0 = length (a # rest) \<or> r - calculateTotalSize (take 0 (a # rest)) \<le> m)"
      by (simp add: calculateTotalSize_sum_list)
    then show ?thesis by blast
  next
    case False
    from Cons.IH [of "r - size_in_bytes a"] obtain k where k: "k \<le> length rest"
      "selectLoop rest (r - size_in_bytes a) m [] = take k rest"
      "\<forall>j < k. \<not> (r - size_in_bytes a - calculateTotalSize (take j rest) \<le> m)"
      "k = length rest \<or> r - size_in_bytes a - calculateTotalSize (take k rest) \<le> m"
      by blast
    have sel: "selectLoop (a # rest) r m [] = take (Suc k) (a # rest)"
      using False k(2) selectLoop_acc [of rest "r - size_in_bytes a" m "[a]"] by simp
    have short: "\<forall>j < Suc k. \<not> (r - calculateTotalSize (take j (a # rest)) \<le> m)"
    proof (intro allI impI)
      fix j assume "j < Suc k"
      show "\<not> (r - calculateTotalSize (take j (a # rest)) \<le> m)"
      proof (cases j)
        case 0
        with False show ?thesis by (simp add: calculateTotalSize_sum_list)
      next
        case (Suc j')
        with \<open>j < Suc k\<close> k(3) have "\<not> (r - size_in_bytes a - calculateTotalSize (take j' rest) \<le> m)"
          by simp
        with Suc show ?thesis by (simp add: calculateTotalSize_sum_list)
      qed
    qed
    have last: "Suc k = length (a # rest) \<or> r - calculateTotalSize (take (Suc k) (a # rest)) \<le> m"
      using k(4) by (auto simp: calculateTotalSize_sum_list)
    from k(1) sel short last show ?thesis
      by (intro exI [of _ "Suc k"]) simp
  qed
qed

lemma calculateTotalSize_sort:
  "calculateTotalSize (sortByCreatedDate xs) = calculateTotalSize xs"
proof -
  have "mset (map size_in_bytes (sortByCreatedDate xs)) = mset (map size_in_bytes xs)"
    by (simp add: sortByCreatedDate_def)
  then have "sum_list (map size_in_bytes (sortByCreatedDate xs)) = sum_list (map size_in_bytes xs)"
    by (metis sum_mset_sum_list)
  then show ?thesis by (simp add: calculateTotalSize_sum_list)
qed

lemma selectArtifactsToDelete_take:
  "\<exists>k \<le> length A. selectArtifactsToDelete A s L = take k (sortByCreatedDate A) \<and>
     (\<forall>j < k. \<not> (s - calculateTotalSize (take j (sortByCreatedDate A)) \<le> L)) \<and>
     (k = length A \<or> s - calculateTotalSize (take k (sortByCreatedDate A)) \<le> L)"
proof -
  let ?S = "sortByCreatedDate A"
  have len: "length ?S = length A" by (simp add: sortByCreatedDate_def)
  obtain k where k: "k \<le> length ?S" "selectLoop ?S s L [] = take k ?S"
      "\<forall>j < k. \<not> (s - calculateTotalSize (take j ?S) \<le> L)"
      "k = length ?S \<or> s - calculateTotalSize (take k ?S) \<le> L"
    using selectLoop_take [of ?S s L] by blast
  have "selectArtifactsToDelete A s L = take k ?S"
  proof (cases "s \<le> L")
    case True
    with k(3) have "k = 0" by (cases k) (auto simp: calculateTotalSize_sum_list)
    with True show ?thesis by (simp add: selectArtifactsToDelete_def)
  next
    case False
    with k(2) show ?thesis by (simp add: selectArtifactsToDelete_def)
  qed
  with k len show ?thesis by auto
qed

lemma selectLoop_subset: "set (selectLoop xs r m acc) \<subseteq> set acc \<union> set xs"
proof (induction xs arbitrary: r acc)
  case Nil
  show ?case by simp
next
  case (Cons a rest)
  show ?case using Cons.IH [of "r - size_in_bytes a" "acc @ [a]"] by auto
qed

lemma selectArtifactsToDelete_subset: "set (selectArtifactsToDelete A s L) \<subseteq> set A"
  using selectLoop_subset [of "sortByCreatedDate A" s L "[]"]
  by (simp add: selectArtifactsToDelete_def sortByCreatedDate_def)

lemma createdTime_null_as_epoch: "createdTime (null_as_epoch a) = createdTime a"
  by (simp add: null_as_epoch_def createdTime_def)

lemma insort_key_map:
  "insort_key f (g x) (map g ys) = map g (insort_key (\<lambda>y. f (g y)) x ys)"
  by (induction ys) simp_all

lemma sort_key_map:
  "sort_key f (map g xs) = map g (sort_key (\<lambda>y. f (g y)) xs)"
  by (induction xs) (simp_all add: insort_key_map)

lemma sortByCreatedDate_null_as_epoch:
  "sortByCreatedDate (map null_as_epoch xs) = map null_as_epoch (sortByCreatedDate xs)"
  by (simp add: sortByCreatedDate_def sort_key_map createdTime_null_as_epoch)

lemma sorted_key_null_first:
  assumes "sorted (map createdTime S)" and "i < length S" and "j < length S"
    and "created_at (S ! i) = None" and "0 < createdTime (S ! j)"
  shows "i < j"
proof (rule ccontr)
  assume "\<not> i < j"
  then have "j \<le> i" by simp
  with assms(1,2) have "map createdTime S ! j \<le> map createdTime S ! i"
    by (simp add: sorted_iff_nth_mono del: nth_map)
  with assms(2,3) have "createdTime (S ! j) \<le> createdTime (S ! i)" by simp
  with assms(4,5) show False by (simp add: createdTime_def)
qed

lemma deleteArtifact_artifact: "artifact (fst (deleteArtifact config request b)) = b"
  by (simp add: deleteArtifact_def split: option.splits)

lemma deleteArtifacts_artifacts:
  "map artifact (fst (deleteArtifacts config api artifacts)) = artifacts"
proof -
  have "map artifact (fst (deleteArtifacts config api artifacts)) =
      map snd (enumerate 0 artifacts)"
    unfolding deleteArtifacts_def Let_def fst_conv map_map
    by (rule map_cong) (simp_all add: case_prod_unfold deleteArtifact_artifact)
  then show ?thesis by simp
qed

lemma filter_ids_union:
  assumes "set T \<subseteq> set A"
  shows "f ` set (filter (\<lambda>a. f a \<notin> set (map f T)) A) \<union> f ` set T = f ` set A"
  using assms by auto

lemma filter_ids_disjoint:
  "f ` set (filter (\<lambda>a. f a \<notin> set (map f T)) A) \<inter> f ` set T = {}"
  by auto

lemma performCleanup_over:
  assumes "isOverLimit (totalSizeBytes (calculateStats artifacts)) (maxSizeGB config * 1024 ^ 3)"
    and "performCleanup config api artifacts = (Inr summary, eff)"
  shows "\<exists>toDelete. set toDelete \<subseteq> set artifacts \<and>
           map artifact (deletionLog eff) = toDelete \<and>
           retained summary =
             filter (\<lambda>a. artifact_id a \<notin> set (map artifact_id toDelete)) artifacts \<and>
           failures summary = filter (\<lambda>r. \<not> success r) (deletionLog eff)"
proof -
  let ?T = "selectArtifactsToDelete artifacts (totalSizeBytes (calculateStats artifacts))
              (maxSizeGB config * 1024 ^ 3)"
  let ?R = "fst (deleteArtifacts config api ?T)"
  from assms have ne: "?T \<noteq> []"
    by (auto simp: performCleanup_def Let_def split: if_splits)
  with assms have s: "summary = createCleanupSummary (calculateStats artifacts) ?R
        (filter (\<lambda>a. artifact_id a \<notin> set (map artifact_id ?T)) artifacts)"
    and e: "deletionLog eff = ?R"
    by (auto simp: performCleanup_def Let_def case_prod_unfold)
  have "set ?T \<subseteq> set artifacts" by (rule selectArtifactsToDelete_subset)
  moreover have "map artifact (deletionLog eff) = ?T"
    unfolding e by (rule deleteArtifacts_artifacts)
  moreover have "retained summary =
      filter (\<lambda>a. artifact_id a \<notin> set (map artifact_id ?T)) artifacts"
    unfolding s by (simp add: createCleanupSummary_def Let_def)
  moreover have "failures summary = filter (\<lambda>r. \<not> success r) (deletionLog eff)"
    unfolding s e by (simp add: createCleanupSummary_def Let_def)
  ultimately show ?thesis by blast
qed

lemma performCleanup_not_over:
  assumes "\<not> isOverLimit (totalSizeBytes (calculateStats artifacts)) (maxSizeGB config * 1024 ^ 3)"
    and "performCleanup config api artifacts = (Inr summary, eff)"
  shows "retained summary = artifacts \<and> deletionLog eff = [] \<and> failures summary = []"
  using assms by (auto simp: performCleanup_def Let_def)

section \<open>The over-limit test\<close>

text \<open>
  C7. \<open>isOverLimit\<close> is strict greater-than: a size equal to the limit is not over
  the limit, and one more than the limit is.
\<close>

theorem isOverLimit_strict:
  "isOverLimit s m = (m < s) \<and> isOverLimit x x = False \<and> isOverLimit (x + 1) x = True"
  by (simp add: isOverLimit_def)

section \<open>The selection\<close>

text \<open>
  C2, as the spec states it, for every list, usage and limit: the selector returns the
  shortest prefix of the sorted list that brings the usage to the limit. It fails where no
  prefix suffices. One artifact of 100 bytes, a usage of 300 and a limit of 150: the
  selector returns that artifact, and 200 bytes remain, above the limit.
\<close>

theorem selectArtifactsToDelete_insufficient_counterexample:
  "\<not> shortest_sufficient_prefix
       (sortByCreatedDate
          [\<lparr>artifact_id = 1, name = ''artifact-1'', size_in_bytes = 100,
            created_at = Some 1704067200000\<rparr>])
       300 150
       (selectArtifactsToDelete
          [\<lparr>artifact_id = 1, name = ''artifact-1'', size_in_bytes = 100,
            created_at = Some 1704067200000\<rparr>]
          300 150)"
  by (simp add: shortest_sufficient_prefix_def selectArtifactsToDelete_def
      sortByCreatedDate_def calculateTotalSize_def)

text \<open>
  C2, amended. The selector returns the empty list when the usage is at or below the
  limit. When some prefix of the sorted list suffices, and in particular whenever the
  usage minus the total size of the list is at or below the limit (the orchestrator passes
  the total size as the usage), it returns the shortest sufficient prefix. When no prefix
  suffices it returns the whole sorted list.
\<close>

theorem selectArtifactsToDelete_shortest_prefix:
  "(s \<le> L \<longrightarrow> selectArtifactsToDelete A s L = []) \<and>
   ((\<exists>k \<le> length A. s - calculateTotalSize (take k (sortByCreatedDate A)) \<le> L) \<longrightarrow>
      shortest_sufficient_prefix (sortByCreatedDate A) s L (selectArtifactsToDelete A s L)) \<and>
   (s - calculateTotalSize A \<le> L \<longrightarrow>
      shortest_sufficient_prefix (sortByCreatedDate A) s L (selectArtifactsToDelete A s L)) \<and>
   (\<not> (\<exists>k \<le> length A. s - calculateTotalSize (take k (sortByCreatedDate A)) \<le> L) \<longrightarrow>
      selectArtifactsToDelete A s L = sortByCreatedDate A)"
proof -
  let ?S = "sortByCreatedDate A"
  let ?P = "selectArtifactsToDelete A s L"
  have len: "length ?S = length A" by (simp add: sortByCreatedDate_def)
  have empty: "s \<le> L \<longrightarrow> ?P = []" by (simp add: selectArtifactsToDelete_def)
  obtain k where k: "k \<le> length A" "?P = take k ?S"
      "\<forall>j < k. \<not> (s - calculateTotalSize (take j ?S) \<le> L)"
      "k = length A \<or> s - calculateTotalSize (take k ?S) \<le> L"
    using selectArtifactsToDelete_take [of A s L] by blast
  have lenP: "length ?P = k" using k(1,2) len by simp
  have pre: "prefix ?P ?S" unfolding k(2) by (rule take_is_prefix)
  have suff: "shortest_sufficient_prefix ?S s L ?P"
    if ex: "\<exists>n \<le> length A. s - calculateTotalSize (take n ?S) \<le> L"
  proof -
    from ex obtain n where n: "n \<le> length A" "s - calculateTotalSize (take n ?S) \<le> L"
      by blast
    have "s - calculateTotalSize (take k ?S) \<le> L"
    proof (cases "k = length A")
      case True
      with n k(3) have "n = k" by (metis le_neq_implies_less)
      with n(2) show ?thesis by simp
    next
      case False
      with k(4) show ?thesis by simp
    qed
    with pre k(3) lenP show ?thesis
      unfolding shortest_sufficient_prefix_def k(2) by simp
  qed
  have total: "shortest_sufficient_prefix ?S s L ?P" if "s - calculateTotalSize A \<le> L"
  proof -
    have "s - calculateTotalSize (take (length A) ?S) \<le> L"
      using that len by (simp add: calculateTotalSize_sort)
    then show ?thesis using suff by blast
  qed
  have none: "?P = ?S"
    if "\<not> (\<exists>n \<le> length A. s - calculateTotalSize (take n ?S) \<le> L)"
  proof -
    from that k(1) have "\<not> (s - calculateTotalSize (take k ?S) \<le> L)" by auto
    with k(4) have "k = length A" by blast
    with k(2) len show ?thesis by simp
  qed
  from empty suff total none show ?thesis by blast
qed


theorem selectArtifactsToDelete_shortest_prefix_witness:
  "selectArtifactsToDelete
     [\<lparr>artifact_id = 1, name = ''artifact-1'', size_in_bytes = 100,
       created_at = Some 1704067200000\<rparr>,
      \<lparr>artifact_id = 2, name = ''artifact-2'', size_in_bytes = 100,
       created_at = Some 1704067200000\<rparr>] 200 500 = [] \<and>
   shortest_sufficient_prefix
     (sortByCreatedDate
        [\<lparr>artifact_id = 3, name = ''artifact-3'', size_in_bytes = 100,
          created_at = Some 1709251200000\<rparr>,
         \<lparr>artifact_id = 1, name = ''artifact-1'', size_in_bytes = 100,
          created_at = Some 1704067200000\<rparr>,
         \<lparr>artifact_id = 2, name = ''artifact-2'', size_in_bytes = 100,
          created_at = Some 1706745600000\<rparr>])
     300 150
     (selectArtifactsToDelete
        [\<lparr>artifact_id = 3, name = ''artifact-3'', size_in_bytes = 100,
          created_at = Some 1709251200000\<rparr>,
         \<lparr>artifact_id = 1, name = ''artifact-1'', size_in_bytes = 100,
          created_at = Some 1704067200000\<rparr>,
         \<lparr>artifact_id = 2, name = ''artifact-2'', size_in_bytes = 100,
          created_at = Some 1706745600000\<rparr>]
        300 150) \<and>
   selectArtifactsToDelete
     [\<lparr>artifact_id = 1, name = ''artifact-1'', size_in_bytes = 100,
       created_at = Some 1704067200000\<rparr>] 300 150 =
   sortByCreatedDate
     [\<lparr>artifact_id = 1, name = ''artifact-1'', size_in_bytes = 100,
       created_at = Some 1704067200000\<rparr>]"
proof -
  let ?a1 = "\<lparr>artifact_id = 1, name = ''artifact-1'', size_in_bytes = 100,
              created_at = Some 1704067200000\<rparr>"
  let ?a1' = "\<lparr>artifact_id = 2, name = ''artifact-2'', size_in_bytes = 100,
              created_at = Some 1704067200000\<rparr>"
  let ?a2 = "\<lparr>artifact_id = 2, name = ''artifact-2'', size_in_bytes = 100,
              created_at = Some 1706745600000\<rparr>"
  let ?a3 = "\<lparr>artifact_id = 3, name = ''artifact-3'', size_in_bytes = 100,
              created_at = Some 1709251200000\<rparr>"
  have under: "(200::real) \<le> 500" by simp
  have enough: "300 - calculateTotalSize [?a3, ?a1, ?a2] \<le> 150"
    by (simp add: calculateTotalSize_def)
  have none: "\<not> (\<exists>k \<le> length [?a1].
      300 - calculateTotalSize (take k (sortByCreatedDate [?a1])) \<le> 150)"
    by (simp add: calculateTotalSize_def sortByCreatedDate_def less_Suc_eq_le [symmetric]
        All_less_Suc)
  show ?thesis
    using under enough none
      selectArtifactsToDelete_shortest_prefix [of 200 500 "[?a1, ?a1']"]
      selectArtifactsToDelete_shortest_prefix [of 300 150 "[?a3, ?a1, ?a2]"]
      selectArtifactsToDelete_shortest_prefix [of 300 150 "[?a1]"]
    by blast
qed

section \<open>The summary\<close>

text \<open>
  C3. In the summary, \<open>freedBytes\<close> is the sum of the sizes of the successful outcomes,
  \<open>deletedCount\<close> is their number, and \<open>finalSizeBytes\<close> is the initial total size
  minus \<open>freedBytes\<close>.
\<close>

theorem createCleanupSummary_accounting:
  "freedBytes (createCleanupSummary initialStats results kept) =
     sum_list (map (\<lambda>r. size_in_bytes (artifact r)) (filter success results)) \<and>
   deletedCount (createCleanupSummary initialStats results kept) =
     length (filter success results) \<and>
   finalSizeBytes (createCleanupSummary initialStats results kept) =
     totalSizeBytes initialStats - freedBytes (createCleanupSummary initialStats results kept)"
  by (simp add: createCleanupSummary_def Let_def foldl_add_sum_list)

text \<open>
  C9. Every outcome is counted once: the number of deletions plus the number of failures
  is the number of outcomes.
\<close>

theorem createCleanupSummary_counts:
  "deletedCount (createCleanupSummary initialStats results kept) +
   length (failures (createCleanupSummary initialStats results kept)) = length results"
  by (simp add: createCleanupSummary_def Let_def sum_length_filter_compl)
text \<open>
  C8. The \<open>failures\<close> field is the outcomes with \<open>success = false\<close>, in their
  order and unchanged, so each keeps its error message; every failed outcome is in it. A
  deletion that throws yields a failed outcome carrying the message, and the batch still
  returns one outcome for every artifact, in order.
\<close>

theorem createCleanupSummary_failures:
  "failures (createCleanupSummary initialStats results kept) =
     filter (\<lambda>r. \<not> success r) results \<and>
   subseq (failures (createCleanupSummary initialStats results kept)) results \<and>
   set (failures (createCleanupSummary initialStats results kept)) =
     {r \<in> set results. \<not> success r} \<and>
   fst (deleteArtifact (config\<lparr>dryRun := False\<rparr>) (\<lambda>n. Some msg) a) =
     \<lparr>artifact = a, success = False, error = Some msg\<rparr> \<and>
   map artifact (fst (deleteArtifacts config api artifacts)) = artifacts"
proof -
  have f: "failures (createCleanupSummary initialStats results kept) =
      filter (\<lambda>r. \<not> success r) results"
    by (simp add: createCleanupSummary_def Let_def)
  have d: "fst (deleteArtifact (config\<lparr>dryRun := False\<rparr>) (\<lambda>n. Some msg) a) =
      \<lparr>artifact = a, success = False, error = Some msg\<rparr>"
    by (simp add: deleteArtifact_def)
  show ?thesis unfolding f using d deleteArtifacts_artifacts [of config api artifacts] by simp
qed

section \<open>The orchestrator\<close>

text \<open>
  C10. When the initial total size is at or below the limit, \<open>performCleanup\<close>
  returns a summary with no deletion, nothing freed, the initial size as the final size,
  no failure and the whole input list as \<open>retained\<close>; no deletion is requested.
\<close>

theorem performCleanup_under_limit:
  assumes "calculateTotalSize artifacts \<le> maxSizeGB config * 1024 ^ 3"
  shows "performCleanup config api artifacts =
     (Inr \<lparr>initial = calculateStats artifacts,
           deletedCount = 0,
           freedBytes = 0,
           freedGB = 0,
           finalSizeBytes = calculateTotalSize artifacts,
           finalSizeGB = bytesToGB (calculateTotalSize artifacts),
           failures = [],
           retained = artifacts\<rparr>,
      \<lparr>deleteRequests = [], deletionLog = []\<rparr>)"
  using assms by (simp add: performCleanup_def Let_def isOverLimit_def calculateStats_def)

theorem performCleanup_under_limit_witness:
  "calculateTotalSize
     [\<lparr>artifact_id = 1, name = ''artifact-1'', size_in_bytes = 100,
       created_at = Some 1704067200000\<rparr>,
      \<lparr>artifact_id = 2, name = ''artifact-2'', size_in_bytes = 100,
       created_at = None\<rparr>]
     \<le> maxSizeGB \<lparr>owner = ''o'', repo = ''r'', maxSizeGB = 1, token = ''t'', dryRun = False\<rparr>
        * 1024 ^ 3 \<and>
   performCleanup
     \<lparr>owner = ''o'', repo = ''r'', maxSizeGB = 1, token = ''t'', dryRun = False\<rparr>
     (\<lambda>i n. Some ''Not Found'')
     [\<lparr>artifact_id = 1, name = ''artifact-1'', size_in_bytes = 100,
       created_at = Some 1704067200000\<rparr>,
      \<lparr>artifact_id = 2, name = ''artifact-2'', size_in_bytes = 100,
       created_at = None\<rparr>] =
     (Inr \<lparr>initial = \<lparr>totalCount = 2, totalSizeBytes = 200, totalSizeGB = 200 / 1024 ^ 3\<rparr>,
           deletedCount = 0,
           freedBytes = 0,
           freedGB = 0,
           finalSizeBytes = 200,
           finalSizeGB = 200 / 1024 ^ 3,
           failures = [],
           retained =
             [\<lparr>artifact_id = 1, name = ''artifact-1'', size_in_bytes = 100,
               created_at = Some 1704067200000\<rparr>,
              \<lparr>artifact_id = 2, name = ''artifact-2'', size_in_bytes = 100,
               created_at = None\<rparr>]\<rparr>,
      \<lparr>deleteRequests = [], deletionLog = []\<rparr>)"
proof -
  let ?cfg = "\<lparr>owner = ''o'', repo = ''r'', maxSizeGB = 1, token = ''t'', dryRun = False\<rparr>"
  let ?arts = "[\<lparr>artifact_id = 1, name = ''artifact-1'', size_in_bytes = 100,
       created_at = Some 1704067200000\<rparr>,
      \<lparr>artifact_id = 2, name = ''artifact-2'', size_in_bytes = 100,
       created_at = None\<rparr>]"
  have h: "calculateTotalSize ?arts \<le> maxSizeGB ?cfg * 1024 ^ 3"
    by (simp add: calculateTotalSize_def)
  show ?thesis
    using h performCleanup_under_limit [OF h, of "\<lambda>i n. Some ''Not Found''"]
    by (simp add: calculateStats_def calculateTotalSize_def bytesToGB_def)
qed

text \<open>
  C4. When the total size is over the limit and the selector returns the empty list,
  \<open>performCleanup\<close> returns the failure \<open>ok: false\<close> with its own error, and no
  summary; it requests no deletion.
\<close>

theorem performCleanup_consistency_error:
  assumes "isOverLimit (totalSizeBytes (calculateStats artifacts)) (maxSizeGB config * 1024 ^ 3)"
    and "selectArtifactsToDelete artifacts (totalSizeBytes (calculateStats artifacts))
           (maxSizeGB config * 1024 ^ 3) = []"
  shows "performCleanup config api artifacts =
     (Inl (Error ''No artifacts to delete, but still over limit. This should not happen.''),
      \<lparr>deleteRequests = [], deletionLog = []\<rparr>) \<and>
     (\<forall>summary. fst (performCleanup config api artifacts) \<noteq> Inr summary)"
  using assms by (simp add: performCleanup_def Let_def)

theorem performCleanup_consistency_error_witness:
  "isOverLimit (totalSizeBytes (calculateStats []))
     (maxSizeGB \<lparr>owner = ''o'', repo = ''r'', maxSizeGB = - 1, token = ''t'', dryRun = False\<rparr>
        * 1024 ^ 3) \<and>
   selectArtifactsToDelete [] (totalSizeBytes (calculateStats []))
     (maxSizeGB \<lparr>owner = ''o'', repo = ''r'', maxSizeGB = - 1, token = ''t'', dryRun = False\<rparr>
        * 1024 ^ 3) = [] \<and>
   performCleanup
     \<lparr>owner = ''o'', repo = ''r'', maxSizeGB = - 1, token = ''t'', dryRun = False\<rparr>
     (\<lambda>i n. None) [] =
     (Inl (Error ''No artifacts to delete, but still over limit. This should not happen.''),
      \<lparr>deleteRequests = [], deletionLog = []\<rparr>)"
proof -
  let ?cfg = "\<lparr>owner = ''o'', repo = ''r'', maxSizeGB = - 1, token = ''t'', dryRun = False\<rparr>"
  have over: "isOverLimit (totalSizeBytes (calculateStats [])) (maxSizeGB ?cfg * 1024 ^ 3)"
    by (simp add: isOverLimit_def calculateStats_def calculateTotalSize_def)
  have none: "selectArtifactsToDelete [] (totalSizeBytes (calculateStats []))
      (maxSizeGB ?cfg * 1024 ^ 3) = []"
    by (simp add: selectArtifactsToDelete_def sortByCreatedDate_def)
  show ?thesis
    using over none performCleanup_consistency_error [OF over none, of "\<lambda>i n. None"]
    by blast
qed


text \<open>
  C1, as the spec states it, for every run: the retained ids and the ids of the successful
  outcomes are the original ids. It fails when a deletion fails: the artifact was selected,
  so it is not in \<open>retained\<close>, and it is not among the successes. One artifact of
  2 GiB, a limit of 1 GiB, and a deletion that throws.
\<close>

theorem performCleanup_failed_deletion_counterexample:
  "case performCleanup
       \<lparr>owner = ''o'', repo = ''r'', maxSizeGB = 1, token = ''t'', dryRun = False\<rparr>
       (\<lambda>i n. Some ''Not Found'')
       [\<lparr>artifact_id = 1, name = ''artifact-1'', size_in_bytes = 2147483648,
         created_at = Some 1704067200000\<rparr>] of
     (Inr summary, eff) \<Rightarrow>
       \<not> retained_deleted_partition
           [\<lparr>artifact_id = 1, name = ''artifact-1'', size_in_bytes = 2147483648,
             created_at = Some 1704067200000\<rparr>] summary (deletionLog eff)
   | (Inl e, eff) \<Rightarrow> False"
  by (simp add: performCleanup_def Let_def calculateStats_def calculateTotalSize_def
      isOverLimit_def selectArtifactsToDelete_def sortByCreatedDate_def deleteArtifacts_def
      deleteArtifact_def createCleanupSummary_def retained_deleted_partition_def
      del: set_filter)

text \<open>
  C1, amended. For every run that returns a summary, the retained ids, the ids of the
  successful outcomes and the ids of the outcomes in \<open>failures\<close> together are the
  original ids, and no retained id is the id of an outcome, successful or failed. When
  \<open>failures\<close> is empty, the retained ids and the successfully deleted ids partition
  the original ids.
\<close>

theorem performCleanup_partition:
  assumes "performCleanup config api artifacts = (Inr summary, eff)"
  shows "artifact_id ` set (retained summary) \<union>
           artifact_id ` artifact ` set (filter success (deletionLog eff)) \<union>
           artifact_id ` artifact ` set (failures summary) = artifact_id ` set artifacts \<and>
         artifact_id ` set (retained summary) \<inter>
           (artifact_id ` artifact ` set (filter success (deletionLog eff)) \<union>
            artifact_id ` artifact ` set (failures summary)) = {} \<and>
         (failures summary = [] \<longrightarrow>
            retained_deleted_partition artifacts summary (deletionLog eff))"
proof (cases "isOverLimit (totalSizeBytes (calculateStats artifacts)) (maxSizeGB config * 1024 ^ 3)")
  case False
  from performCleanup_not_over [OF False assms] show ?thesis
    by (simp add: retained_deleted_partition_def)
next
  case True
  from performCleanup_over [OF True assms] obtain T where T: "set T \<subseteq> set artifacts"
      "map artifact (deletionLog eff) = T"
      "retained summary = filter (\<lambda>a. artifact_id a \<notin> set (map artifact_id T)) artifacts"
      "failures summary = filter (\<lambda>r. \<not> success r) (deletionLog eff)"
    by blast
  let ?ok = "artifact_id ` artifact ` set (filter success (deletionLog eff))"
  let ?bad = "artifact_id ` artifact ` set (failures summary)"
  have img: "artifact ` set (deletionLog eff) = set T"
    using T(2) by (metis set_map)
  have "set (filter success (deletionLog eff)) \<union>
      set (filter (\<lambda>r. \<not> success r) (deletionLog eff)) = set (deletionLog eff)"
    by auto
  then have "?ok \<union> ?bad = artifact_id ` artifact ` set (deletionLog eff)"
    unfolding T(4) image_Un [symmetric] by (rule arg_cong)
  with img have all: "?ok \<union> ?bad = artifact_id ` set T"
    by simp
  have u: "artifact_id ` set (retained summary) \<union> artifact_id ` set T = artifact_id ` set artifacts"
    unfolding T(3) using T(1) by (rule filter_ids_union)
  have d: "artifact_id ` set (retained summary) \<inter> artifact_id ` set T = {}"
    unfolding T(3) by (rule filter_ids_disjoint)
  have one: "artifact_id ` set (retained summary) \<union> ?ok \<union> ?bad = artifact_id ` set artifacts"
    using u all by (simp add: Un_assoc)
  have two: "artifact_id ` set (retained summary) \<inter> (?ok \<union> ?bad) = {}"
    using d all by simp
  have three: "retained_deleted_partition artifacts summary (deletionLog eff)"
    if "failures summary = []"
  proof -
    from that have "?bad = {}" by simp
    with one two show ?thesis by (simp add: retained_deleted_partition_def)
  qed
  from one two three show ?thesis by blast
qed

theorem performCleanup_partition_witness:
  "(let jan = \<lparr>artifact_id = 1, name = ''artifact-1'', size_in_bytes = 1073741824,
       created_at = Some 1704067200000\<rparr>;
        feb = \<lparr>artifact_id = 2, name = ''artifact-2'', size_in_bytes = 1073741824,
       created_at = Some 1706745600000\<rparr>;
        mar = \<lparr>artifact_id = 3, name = ''artifact-3'', size_in_bytes = 1073741824,
       created_at = Some 1709251200000\<rparr>;
        config = \<lparr>owner = ''o'', repo = ''r'', maxSizeGB = 5 / 2, token = ''t'', dryRun = False\<rparr>;
        summary = \<lparr>initial = \<lparr>totalCount = 3, totalSizeBytes = 3221225472, totalSizeGB = 3\<rparr>,
                   deletedCount = 1, freedBytes = 1073741824, freedGB = 1,
                   finalSizeBytes = 2147483648, finalSizeGB = 2,
                   failures = [], retained = [feb, mar]\<rparr>;
        eff = \<lparr>deleteRequests = [1],
               deletionLog = [\<lparr>artifact = jan, success = True, error = None\<rparr>]\<rparr>
    in performCleanup config (\<lambda>i n. None) [jan, feb, mar] = (Inr summary, eff) \<and>
       failures summary = [] \<and>
       retained_deleted_partition [jan, feb, mar] summary (deletionLog eff))"
proof -
  let ?jan = "\<lparr>artifact_id = 1, name = ''artifact-1'', size_in_bytes = 1073741824,
       created_at = Some 1704067200000\<rparr>"
  let ?feb = "\<lparr>artifact_id = 2, name = ''artifact-2'', size_in_bytes = 1073741824,
       created_at = Some 1706745600000\<rparr>"
  let ?mar = "\<lparr>artifact_id = 3, name = ''artifact-3'', size_in_bytes = 1073741824,
       created_at = Some 1709251200000\<rparr>"
  let ?config = "\<lparr>owner = ''o'', repo = ''r'', maxSizeGB = 5 / 2, token = ''t'', dryRun = False\<rparr>"
  let ?summary = "\<lparr>initial = \<lparr>totalCount = 3, totalSizeBytes = 3221225472, totalSizeGB = 3\<rparr>,
                   deletedCount = 1, freedBytes = 1073741824, freedGB = 1,
                   finalSizeBytes = 2147483648, finalSizeGB = 2,
                   failures = [], retained = [?feb, ?mar]\<rparr>"
  let ?eff = "\<lparr>deleteRequests = [1],
               deletionLog = [\<lparr>artifact = ?jan, success = True, error = None\<rparr>]\<rparr>"
  have run: "performCleanup ?config (\<lambda>i n. None) [?jan, ?feb, ?mar] = (Inr ?summary, ?eff)"
    by (simp add: performCleanup_def Let_def calculateStats_def calculateTotalSize_def
        isOverLimit_def selectArtifactsToDelete_def sortByCreatedDate_def createdTime_def
        deleteArtifacts_def deleteArtifact_def createCleanupSummary_def bytesToGB_def)
  have none: "failures ?summary = []" by simp
  show ?thesis
    unfolding Let_def using run none performCleanup_partition [OF run] by blast
qed

section \<open>The order of eviction\<close>

text \<open>
  C5. An artifact with a null \<open>created_at\<close> is ordered as if it were dated at the
  epoch, time zero: its sort key is 0, the sorted list ascends in the dates with 0 read
  for null, and sorting commutes with writing the epoch into null dates. In the sorted
  list and in the selection it stands before every artifact whose date is a positive
  timestamp; a selection that holds an artifact with a positive timestamp holds it too;
  and when every dated artifact has a positive timestamp and the usage is over the limit,
  the first artifact selected has a null date.
\<close>

theorem sortByCreatedDate_null_is_epoch:
  assumes "created_at a = None"
  shows "createdTime a = 0 \<and>
    sortByCreatedDate (map null_as_epoch xs) = map null_as_epoch (sortByCreatedDate xs) \<and>
    (\<forall>i j. i < j \<and> j < length (sortByCreatedDate xs) \<longrightarrow>
        (case created_at (sortByCreatedDate xs ! i) of None \<Rightarrow> 0 | Some t \<Rightarrow> t)
          \<le> (case created_at (sortByCreatedDate xs ! j) of None \<Rightarrow> 0 | Some t \<Rightarrow> t)) \<and>
    (\<forall>i j t. i < length (sortByCreatedDate xs) \<and> j < length (sortByCreatedDate xs) \<and>
        sortByCreatedDate xs ! i = a \<and>
        created_at (sortByCreatedDate xs ! j) = Some t \<and> 0 < t \<longrightarrow> i < j) \<and>
    (\<forall>i j t. i < length (selectArtifactsToDelete xs s L) \<and>
        j < length (selectArtifactsToDelete xs s L) \<and>
        selectArtifactsToDelete xs s L ! i = a \<and>
        created_at (selectArtifactsToDelete xs s L ! j) = Some t \<and> 0 < t \<longrightarrow> i < j) \<and>
    (\<forall>b t. a \<in> set xs \<and> b \<in> set (selectArtifactsToDelete xs s L) \<and>
        created_at b = Some t \<and> 0 < t \<longrightarrow> a \<in> set (selectArtifactsToDelete xs s L)) \<and>
    (a \<in> set xs \<and> L < s \<and> (\<forall>b \<in> set xs. \<forall>t. created_at b = Some t \<longrightarrow> 0 < t) \<longrightarrow>
        selectArtifactsToDelete xs s L \<noteq> [] \<and>
        created_at (hd (selectArtifactsToDelete xs s L)) = None)"
proof -
  let ?S = "sortByCreatedDate xs"
  let ?D = "selectArtifactsToDelete xs s L"
  have srt: "sorted (map createdTime ?S)" by (simp add: sortByCreatedDate_def)
  have setS: "set ?S = set xs" by (simp add: sortByCreatedDate_def)
  have lenS: "length ?S = length xs" by (simp add: sortByCreatedDate_def)
  obtain k where k: "k \<le> length xs" "?D = take k ?S"
      "k = length xs \<or> s - calculateTotalSize (take k ?S) \<le> L"
    using selectArtifactsToDelete_take [of xs s L] by blast
  have lenD: "length ?D = k" using k(1,2) lenS by simp
  have nthD: "?D ! i = ?S ! i" if "i < k" for i using that k(2) by simp
  have dated: "0 < createdTime b" if "created_at b = Some t" "0 < t" for b t
    using that by (simp add: createdTime_def)
  have c1: "createdTime a = 0" using assms by (simp add: createdTime_def)
  have c2: "(case created_at (?S ! i) of None \<Rightarrow> 0 | Some t \<Rightarrow> t)
      \<le> (case created_at (?S ! j) of None \<Rightarrow> 0 | Some t \<Rightarrow> t)"
    if "i < j" "j < length ?S" for i j
  proof -
    from that have "i \<le> j" "i < length ?S" by simp_all
    with srt that(2) have "map createdTime ?S ! i \<le> map createdTime ?S ! j"
      by (simp add: sorted_iff_nth_mono del: nth_map)
    with that(2) \<open>i < length ?S\<close> have "createdTime (?S ! i) \<le> createdTime (?S ! j)"
      by simp
    then show ?thesis by (simp add: createdTime_def)
  qed
  have c3: "i < j"
    if "i < length ?S" "j < length ?S" "?S ! i = a" "created_at (?S ! j) = Some t" "0 < t"
    for i j t
  proof -
    from that(3) assms have "created_at (?S ! i) = None" by simp
    moreover from that(4,5) have "0 < createdTime (?S ! j)" by (rule dated)
    ultimately show ?thesis by (rule sorted_key_null_first [OF srt that(1,2)])
  qed
  have c4: "i < j"
    if "i < length ?D" "j < length ?D" "?D ! i = a" "created_at (?D ! j) = Some t" "0 < t"
    for i j t
  proof -
    from that(1,2) lenD have ij: "i < k" "j < k" by simp_all
    with k(1) lenS have len: "i < length ?S" "j < length ?S" by simp_all
    from that(3,4) ij have "?S ! i = a" "created_at (?S ! j) = Some t"
      by (simp_all add: nthD)
    then show ?thesis using that(5) by (rule c3 [OF len])
  qed
  have c5: "a \<in> set ?D" if "a \<in> set xs" "b \<in> set ?D" "created_at b = Some t" "0 < t"
    for b t
  proof -
    from that(2) lenD obtain j where j: "j < k" "?D ! j = b"
      by (metis in_set_conv_nth)
    from that(1) setS obtain i where i: "i < length ?S" "?S ! i = a"
      by (metis in_set_conv_nth)
    from j k(1) lenS have jS: "j < length ?S" by simp
    from j that(3) have "created_at (?S ! j) = Some t" by (simp add: nthD)
    then have "i < j" using that(4) by (rule c3 [OF i(1) jS i(2)])
    with j(1) have "i < k" by simp
    with i(2) lenD have "i < length ?D" "?D ! i = a" by (simp_all add: nthD)
    then show ?thesis by (metis nth_mem)
  qed
  have c6: "?D \<noteq> [] \<and> created_at (hd ?D) = None"
    if "a \<in> set xs" "L < s" "\<forall>b \<in> set xs. \<forall>t. created_at b = Some t \<longrightarrow> 0 < t"
  proof -
    from that(1) setS obtain i where i: "i < length ?S" "?S ! i = a"
      by (metis in_set_conv_nth)
    have "k \<noteq> 0"
    proof
      assume "k = 0"
      with k(3) that(1,2) show False
        by (auto simp: calculateTotalSize_sum_list)
    qed
    then have kpos: "0 < k" by simp
    with lenD have ne: "?D \<noteq> []" by auto
    from kpos ne have hd: "hd ?D = ?S ! 0" by (simp add: hd_conv_nth nthD)
    from i have S0: "0 < length ?S" by auto
    then have mem: "?S ! 0 \<in> set xs" using setS by (metis nth_mem)
    have "created_at (?S ! 0) = None"
    proof (cases "created_at (?S ! 0)")
      case None
      then show ?thesis .
    next
      case (Some t)
      with that(3) mem have "0 < t" by blast
      with c3 [OF i(1) S0 i(2) Some] show ?thesis by simp
    qed
    with ne hd show ?thesis by simp
  qed
  from c1 sortByCreatedDate_null_as_epoch [of xs] c2 c3 c4 c5 c6 show ?thesis
    by blast
qed

theorem sortByCreatedDate_null_is_epoch_witness:
  "(let jan = \<lparr>artifact_id = 1, name = ''artifact-1'', size_in_bytes = 100,
       created_at = Some 1704067200000\<rparr>;
        mar = \<lparr>artifact_id = 3, name = ''artifact-3'', size_in_bytes = 100,
       created_at = Some 1709251200000\<rparr>;
        undated = \<lparr>artifact_id = 4, name = ''artifact-4'', size_in_bytes = 100,
       created_at = None\<rparr>
    in created_at undated = None \<and>
       createdTime undated = 0 \<and>
       undated \<in> set [mar, undated, jan] \<and> (150::real) < 300 \<and>
       (\<forall>b \<in> set [mar, undated, jan]. \<forall>t. created_at b = Some t \<longrightarrow> 0 < t) \<and>
       sortByCreatedDate [mar, undated, jan] = [undated, jan, mar] \<and>
       selectArtifactsToDelete [mar, undated, jan] 300 150 = [undated, jan] \<and>
       created_at (hd (selectArtifactsToDelete [mar, undated, jan] 300 150)) = None)"
proof -
  let ?jan = "\<lparr>artifact_id = 1, name = ''artifact-1'', size_in_bytes = 100,
       created_at = Some 1704067200000\<rparr>"
  let ?mar = "\<lparr>artifact_id = 3, name = ''artifact-3'', size_in_bytes = 100,
       created_at = Some 1709251200000\<rparr>"
  let ?undated = "\<lparr>artifact_id = 4, name = ''artifact-4'', size_in_bytes = 100,
       created_at = None\<rparr>"
  have null: "created_at ?undated = None" by simp
  have mem: "?undated \<in> set [?mar, ?undated, ?jan]" by simp
  have over: "(150::real) < 300" by simp
  have dated: "\<forall>b \<in> set [?mar, ?undated, ?jan]. \<forall>t. created_at b = Some t \<longrightarrow> 0 < t"
    by simp
  have srt: "sortByCreatedDate [?mar, ?undated, ?jan] = [?undated, ?jan, ?mar]"
    by (simp add: sortByCreatedDate_def createdTime_def)
  have sel: "selectArtifactsToDelete [?mar, ?undated, ?jan] 300 150 = [?undated, ?jan]"
    by (simp add: selectArtifactsToDelete_def srt)
  show ?thesis
    unfolding Let_def
    using null mem over dated srt sel
      sortByCreatedDate_null_is_epoch [OF null, of "[?mar, ?undated, ?jan]" 300 150]
    by blast
qed


end
